theory Spec2Isabelle
  imports Complex_Main
begin

section \<open>Data model\<close>

text \<open>
  A grid field is a list of rows of Python integers (\<open>List[List[int]]\<close>). Grid
  coordinates and the sizes \<open>L\<close> and \<open>N\<close> are natural numbers; measurement offsets
  and cell levels are integers. Exceptions of the source are values of \<open>error\<close>.
\<close>

type_synonym field = "int list list"

datatype error = IndexError | ValueError | ZeroDivisionError | EOFError | SystemExit

text \<open>\<open>temperature[i][j]\<close>: a read out of range raises IndexError.\<close>

definition cell :: "'a list list \<Rightarrow> nat \<Rightarrow> nat \<Rightarrow> error + 'a" where
  "cell t i j = (if i < length t \<and> j < length (t ! i) then Inr (t ! i ! j) else Inl IndexError)"

text \<open>\<open>temperature[i][j] = v\<close>: a write out of range raises IndexError.\<close>

definition set_cell :: "'a list list \<Rightarrow> nat \<Rightarrow> nat \<Rightarrow> 'a \<Rightarrow> error + 'a list list" where
  "set_cell t i j v =
     (if i < length t \<and> j < length (t ! i) then Inr (t[i := (t ! i)[j := v]]) else Inl IndexError)"

text \<open>A \<open>for\<close> loop whose body may raise: the first exception ends the loop.\<close>

fun foldE :: "('a \<Rightarrow> 's \<Rightarrow> error + 's) \<Rightarrow> 'a list \<Rightarrow> 's \<Rightarrow> error + 's" where
  "foldE f [] s = Inr s"
| "foldE f (x # xs) s = (case f x s of Inl e \<Rightarrow> Inl e | Inr s' \<Rightarrow> foldE f xs s')"

definition wf_field :: "nat \<Rightarrow> field \<Rightarrow> bool" where
  "wf_field L t = (length t = L \<and> list_all (\<lambda>row. length row = L) t)"

definition constant_field :: "field \<Rightarrow> bool" where
  "constant_field t = list_all (\<lambda>row. list_all (\<lambda>v. v = t ! 0 ! 0) row) t"

definition in_range :: "field \<Rightarrow> bool" where
  "in_range t = list_all (\<lambda>row. list_all (\<lambda>v. 0 \<le> v \<and> v \<le> 1000) row) t"

section \<open>Smoothness cost (OptimizeTemperature.\_calc\_placement\_cost)\<close>

text \<open>The body of the inner loop: two additions to \<open>cost\<close> for the cell \<open>(i, j)\<close>.\<close>

definition cost_cell :: "nat \<Rightarrow> field \<Rightarrow> nat \<Rightarrow> nat \<Rightarrow> int \<Rightarrow> error + int" where
  "cost_cell L t i j cost =
     (case cell t i j of Inl e \<Rightarrow> Inl e | Inr a \<Rightarrow>
      case cell t ((i + 1) mod L) j of Inl e \<Rightarrow> Inl e | Inr d \<Rightarrow>
      case cell t i ((j + 1) mod L) of Inl e \<Rightarrow> Inl e | Inr r \<Rightarrow>
        Inr (cost + (a - d)\<^sup>2 + (a - r)\<^sup>2))"

definition calc_placement_cost :: "nat \<Rightarrow> field \<Rightarrow> error + int" where
  "calc_placement_cost L t =
     foldE (\<lambda>i. foldE (\<lambda>j. cost_cell L t i j) [0..<L]) [0..<L] 0"

text \<open>The claimed value: one term per cell, down-neighbour and right-neighbour.\<close>

definition cell_term :: "nat \<Rightarrow> field \<Rightarrow> nat \<Rightarrow> nat \<Rightarrow> int" where
  "cell_term L t i j =
     (t ! i ! j - t ! ((i + 1) mod L) ! j)\<^sup>2 + (t ! i ! j - t ! i ! ((j + 1) mod L))\<^sup>2"

section \<open>Annealing optimizer (OptimizeTemperature.optimize)\<close>

text \<open>
  The optimizer reads three things from outside the program: the wall clock, the
  pseudo-random generator and floating-point arithmetic (the cooling schedule
  \<open>T_start, T_end, alpha\<close> and the Metropolis bound \<open>exp(-delta / T)\<close>). They are
  recorded in a script, one entry per executed loop iteration:
  \<^item> the script is a list of runs, one for each time the test
    \<open>time.time() - start_time <= time_limit\<close> of the outer loop succeeds;
  \<^item> a run is a list of levels, one for each time the test \<open>T > T_end\<close> of the inner
    loop succeeds;
  \<^item> a level holds the raw values behind its random draws and the outcome of
    \<open>random.uniform(0, 1) < math.exp(-delta / T)\<close>, which is read only when
    \<open>delta < 0\<close> is false.
  Every script describes one terminating execution, and every terminating execution has
  a script.
\<close>

record level =
  count_draw :: nat
  cell_draws :: "nat \<Rightarrow> nat"
  offset_draws :: "nat \<Rightarrow> nat"
  accept :: bool

text \<open>
  \<open>random.randint(a, b)\<close> raises ValueError on an empty range and otherwise returns
  \<open>a\<close> plus a value below \<open>b - a + 1\<close>, here taken from the raw draw \<open>r\<close>.
\<close>

definition randint :: "int \<Rightarrow> int \<Rightarrow> nat \<Rightarrow> error + int" where
  "randint a b r = (if b < a then Inl ValueError else Inr (a + int (r mod nat (b - a + 1))))"

text \<open>\<open>random.choice(seq)\<close> on a non-empty list: the element at a position below its length.\<close>

definition choice :: "'a list \<Rightarrow> nat \<Rightarrow> 'a" where
  "choice xs r = xs ! (r mod length xs)"

definition permit_pos :: "nat \<Rightarrow> (nat \<times> nat) list \<Rightarrow> (nat \<times> nat) list" where
  "permit_pos L prohibit_pos =
     concat (map (\<lambda>i. concat (map (\<lambda>j. if (i, j) \<notin> set prohibit_pos then [(i, j)] else [])
                                   [0..<L])) [0..<L])"

text \<open>One pass of the body of \<open>for _ in range(random.randint(1, 20))\<close>.\<close>

definition perturb :: "int \<Rightarrow> (nat \<times> nat) list \<Rightarrow> level \<Rightarrow> nat \<Rightarrow> field \<Rightarrow> error + field" where
  "perturb rand permit lv k t =
     (case choice permit (cell_draws lv k) of (i, j) \<Rightarrow>
      case cell t i j of Inl e \<Rightarrow> Inl e | Inr v \<Rightarrow>
      case randint (- rand) rand (offset_draws lv k) of Inl e \<Rightarrow> Inl e | Inr d \<Rightarrow>
      case set_cell t i j (v + d) of Inl e \<Rightarrow> Inl e | Inr t1 \<Rightarrow>
      case cell t1 i j of Inl e \<Rightarrow> Inl e | Inr w \<Rightarrow>
        set_cell t1 i j (max 0 (min 1000 w)))"

definition propose :: "int \<Rightarrow> (nat \<times> nat) list \<Rightarrow> level \<Rightarrow> field \<Rightarrow> error + field" where
  "propose rand permit lv best =
     (case randint 1 20 (count_draw lv) of Inl e \<Rightarrow> Inl e | Inr n \<Rightarrow>
        foldE (perturb rand permit lv) [0..<nat n] best)"

text \<open>The body of \<open>while T > T_end\<close>; the state is \<open>(best_temperature, best_cost)\<close>.\<close>

definition anneal_level ::
  "nat \<Rightarrow> int \<Rightarrow> (nat \<times> nat) list \<Rightarrow> level \<Rightarrow> field \<times> int \<Rightarrow> error + field \<times> int" where
  "anneal_level L rand permit lv st =
     (case st of (best_temperature, best_cost) \<Rightarrow>
      case propose rand permit lv best_temperature of Inl e \<Rightarrow> Inl e | Inr new_temperature \<Rightarrow>
      case calc_placement_cost L new_temperature of Inl e \<Rightarrow> Inl e | Inr neighbour_cost \<Rightarrow>
        (let delta = neighbour_cost - best_cost in
         if delta < 0 \<or> accept lv then Inr (new_temperature, neighbour_cost)
         else Inr (best_temperature, best_cost)))"

definition optimize ::
  "nat \<Rightarrow> field \<Rightarrow> (nat \<times> nat) list \<Rightarrow> int \<Rightarrow> level list list \<Rightarrow> error + field" where
  "optimize L current_temperature prohibit_pos rand script =
     (case calc_placement_cost L current_temperature of Inl e \<Rightarrow> Inl e | Inr best_cost \<Rightarrow>
        (let permit = permit_pos L prohibit_pos in
         if length permit = 0 then Inr current_temperature
         else case foldE (\<lambda>run. foldE (anneal_level L rand permit) run) script
                     (current_temperature, best_cost)
              of Inl e \<Rightarrow> Inl e | Inr (best_temperature, _) \<Rightarrow> Inr best_temperature))"

text \<open>The effect of one perturbation on the field: one cell, offset and clamped.\<close>

definition clamp_write :: "field \<Rightarrow> nat \<Rightarrow> nat \<Rightarrow> int \<Rightarrow> field" where
  "clamp_write t i j d = t[i := (t ! i)[j := max 0 (min 1000 (t ! i ! j + d))]]"


section \<open>Measurement channel (Judge.measure)\<close>

text \<open>
  A channel is the list of replies still to be read from the judge and the list of
  queries \<open>(i, y, x)\<close> written so far. \<open>measure\<close> writes one query and reads one reply:
  the end of the input raises EOFError, the reply \<open>-1\<close> exits the program.
\<close>

type_synonym channel = "int list \<times> (nat \<times> int \<times> int) list"

definition measure :: "nat \<Rightarrow> int \<Rightarrow> int \<Rightarrow> channel \<Rightarrow> error + int \<times> channel" where
  "measure i y x ch =
     (case ch of (inp, out) \<Rightarrow>
      case inp of [] \<Rightarrow> Inl EOFError
      | v # rest \<Rightarrow> if v = - 1 then Inl SystemExit else Inr (v, (rest, out @ [(i, y, x)])))"

text \<open>\<open>[self.judge.measure(i, y, x) for _ in range(count)]\<close>.\<close>

fun measures :: "nat \<Rightarrow> int \<Rightarrow> int \<Rightarrow> nat \<Rightarrow> channel \<Rightarrow> error + int list \<times> channel" where
  "measures i y x 0 ch = Inr ([], ch)"
| "measures i y x (Suc n) ch =
     (case measure i y x ch of Inl e \<Rightarrow> Inl e | Inr (v, ch1) \<Rightarrow>
      case measures i y x n ch1 of Inl e \<Rightarrow> Inl e | Inr (vs, ch2) \<Rightarrow> Inr (v # vs, ch2))"

section \<open>Assignment (BaseSolver.\_hungarian\_method)\<close>

text \<open>
  \<open>scipy.optimize.linear_sum_assignment\<close> is not part of the repository. In the decoders
  it is a parameter \<open>lsa\<close>, taking the \<open>maximize\<close> flag and the cost matrix and returning
  the column indices. \<open>brute_lsa\<close> is one function with its contract: it tries the
  permutations of the columns and returns the first of least (greatest) total cost.
\<close>

type_synonym solver = "bool \<Rightarrow> rat list list \<Rightarrow> nat list"

definition is_bijection :: "nat \<Rightarrow> nat list \<Rightarrow> bool" where
  "is_bijection N estimate =
     (length estimate = N \<and> distinct estimate \<and> list_all (\<lambda>e. e < N) estimate)"

fun interleave :: "'a \<Rightarrow> 'a list \<Rightarrow> 'a list list" where
  "interleave x [] = [[x]]"
| "interleave x (y # ys) = (x # y # ys) # map ((#) y) (interleave x ys)"

fun perms :: "'a list \<Rightarrow> 'a list list" where
  "perms [] = [[]]"
| "perms (x # xs) = concat (map (interleave x) (perms xs))"

definition total_cost :: "rat list list \<Rightarrow> nat list \<Rightarrow> rat" where
  "total_cost m cols = sum_list (map (\<lambda>(row, c). row ! c) (zip m cols))"

fun best_of :: "('a \<Rightarrow> rat) \<Rightarrow> 'a \<Rightarrow> 'a list \<Rightarrow> 'a" where
  "best_of f b [] = b"
| "best_of f b (x # xs) = best_of f (if f x < f b then x else b) xs"

definition brute_lsa :: solver where
  "brute_lsa maximize m =
     (let score = (\<lambda>p. if maximize then - total_cost m p else total_cost m p)
      in best_of score [0..<length m] (perms [0..<length m]))"

section \<open>Variant A decoder (OnePointSolver.\_predict)\<close>

text \<open>The body of \<open>for i_in in range(self.N - 1)\<close>; the state is the matrix and the channel.\<close>

definition onepoint_row ::
  "field \<Rightarrow> (nat \<times> nat) list \<Rightarrow> nat \<Rightarrow> rat list list \<times> channel
     \<Rightarrow> error + rat list list \<times> channel" where
  "onepoint_row temperature landing_pos i_in st =
     (case st of (cost_matrix, ch) \<Rightarrow>
      case measures i_in 0 0 5 ch of Inl e \<Rightarrow> Inl e | Inr (vs, ch1) \<Rightarrow>
        (let measured_value = of_int (sum_list vs) / 5 in
         case foldE (\<lambda>(i_out, (y, x)) cm.
                       case cell temperature y x of Inl e \<Rightarrow> Inl e | Inr tv \<Rightarrow>
                         set_cell cm i_in i_out (abs (of_int tv - measured_value)))
                    (enumerate 0 landing_pos) cost_matrix
         of Inl e \<Rightarrow> Inl e | Inr cm \<Rightarrow> Inr (cm, ch1)))"

definition onepoint_matrix ::
  "nat \<Rightarrow> field \<Rightarrow> (nat \<times> nat) list \<Rightarrow> channel \<Rightarrow> error + rat list list \<times> channel" where
  "onepoint_matrix N temperature landing_pos ch =
     foldE (onepoint_row temperature landing_pos) [0..<N - 1] (replicate N (replicate N 0), ch)"

definition OnePointSolver_predict ::
  "solver \<Rightarrow> nat \<Rightarrow> field \<Rightarrow> (nat \<times> nat) list \<Rightarrow> channel \<Rightarrow> error + nat list \<times> channel" where
  "OnePointSolver_predict lsa N temperature landing_pos ch =
     (case onepoint_matrix N temperature landing_pos ch of Inl e \<Rightarrow> Inl e
      | Inr (cost_matrix, ch1) \<Rightarrow> Inr (lsa False cost_matrix, ch1))"

section \<open>Variant B (SingularTemperature, SingularSolver)\<close>

text \<open>
  The centroid of the sites, as \<open>run\<close> computes it: \<open>sum(...) // self.N\<close> on both
  axes. Division by \<open>N = 0\<close> raises.
\<close>

definition centroid :: "nat \<Rightarrow> (nat \<times> nat) list \<Rightarrow> error + nat \<times> nat" where
  "centroid N landing_pos =
     (if N = 0 then Inl ZeroDivisionError
      else Inr (sum_list (map fst landing_pos) div N, sum_list (map snd landing_pos) div N))"

text \<open>
  An entry of \<open>distance\<close> is \<open>[i_out, [dy, dx], [d]]\<close>. The list \<open>distance\<close> has
  \<open>N\<close> slots, filled from \<open>enumerate(self.landing_pos)\<close>: with more than \<open>N\<close> sites
  the write raises IndexError, with fewer the sort key \<open>x[2]\<close> of an empty slot does.
  \<open>list.sort\<close> is stable, as \<open>sort_key\<close> is.
\<close>

definition SingularTemperature_run ::
  "nat \<Rightarrow> nat \<Rightarrow> int \<Rightarrow> (nat \<times> nat) list
     \<Rightarrow> error + field \<times> (nat \<times> (int \<times> int) \<times> int) list" where
  "SingularTemperature_run L N S landing_pos =
     (case centroid N landing_pos of Inl e \<Rightarrow> Inl e | Inr (y, x) \<Rightarrow>
      case set_cell (replicate L (replicate L 0)) y x (min 1000 (10 * S)) of Inl e \<Rightarrow> Inl e
      | Inr temperature \<Rightarrow>
        if length landing_pos \<noteq> N then Inl IndexError
        else Inr (temperature,
               sort_key (\<lambda>(i_out, off, d). d)
                 (map (\<lambda>(i_out, (py, px)).
                         (i_out, (int y - int py, int x - int px),
                          abs (int y - int py) + abs (int x - int px)))
                      (enumerate 0 landing_pos))))"

text \<open>
  The inner loop of \<open>_predict\<close> for one hidden index: the entries of \<open>distance\<close> in
  order, skipping the visited candidates, up to the first reading above the threshold
  (\<open>break\<close>). The result is the claimed candidate, if any.
\<close>

fun singular_round ::
  "nat \<Rightarrow> int \<Rightarrow> (nat \<times> (int \<times> int) \<times> int) list \<Rightarrow> nat list \<Rightarrow> channel
     \<Rightarrow> error + nat option \<times> channel" where
  "singular_round i_in threshold [] visited_index ch = Inr (None, ch)"
| "singular_round i_in threshold ((i_out, (dy, dx), d) # rest) visited_index ch =
     (if i_out \<in> set visited_index then singular_round i_in threshold rest visited_index ch
      else case measure i_in dy dx ch of Inl e \<Rightarrow> Inl e
           | Inr (v, ch1) \<Rightarrow>
               if v > threshold then Inr (Some i_out, ch1)
               else singular_round i_in threshold rest visited_index ch1)"

text \<open>The body of the outer loop; the state is \<open>(estimate, visited_index)\<close> and the channel.\<close>

definition singular_step ::
  "int \<Rightarrow> (nat \<times> (int \<times> int) \<times> int) list \<Rightarrow> nat
     \<Rightarrow> (nat list \<times> nat list) \<times> channel \<Rightarrow> error + (nat list \<times> nat list) \<times> channel" where
  "singular_step threshold distance i_in st =
     (case st of ((estimate, visited_index), ch) \<Rightarrow>
      case singular_round i_in threshold distance visited_index ch of Inl e \<Rightarrow> Inl e
      | Inr (None, ch1) \<Rightarrow> Inr ((estimate, visited_index), ch1)
      | Inr (Some i_out, ch1) \<Rightarrow>
          Inr ((estimate[i_in := i_out], visited_index @ [i_out]), ch1))"

text \<open>
  \<open>estimate[-1] = [i for i in range(self.N) if i not in visited_index][0]\<close>: the first
  candidate not visited; IndexError when there is none.
\<close>

definition force_last :: "nat \<Rightarrow> nat list \<Rightarrow> nat list \<Rightarrow> error + nat list" where
  "force_last N estimate visited_index =
     (case filter (\<lambda>i. i \<notin> set visited_index) [0..<N] of [] \<Rightarrow> Inl IndexError
      | r # _ \<Rightarrow> Inr (estimate[N - 1 := r]))"

definition SingularSolver_predict ::
  "nat \<Rightarrow> int \<Rightarrow> (nat \<times> (int \<times> int) \<times> int) list \<Rightarrow> channel \<Rightarrow> error + nat list \<times> channel" where
  "SingularSolver_predict N S distance ch =
     (let threshold = min 999 (5 * S) in
      case foldE (singular_step threshold distance) [0..<N - 1] ((replicate N 0, []), ch)
      of Inl e \<Rightarrow> Inl e
      | Inr ((estimate, visited_index), ch1) \<Rightarrow>
          (case force_last N estimate visited_index of Inl e \<Rightarrow> Inl e
           | Inr est \<Rightarrow> Inr (est, ch1)))"

section \<open>Variant C (SingularTemperature2, SingularSolver2)\<close>

text \<open>
  Two hotspots, at the centroid and one row below it (modulo \<open>L\<close>). The list
  \<open>distance\<close> has \<open>N\<close> slots, filled from \<open>enumerate(self.landing_pos)\<close> with
  \<open>[[dy, dx], [dy2, dx2]]\<close>; a slot that is not filled stays \<open>[]\<close>, here \<open>None\<close>.
  The list is not sorted.
\<close>

definition SingularTemperature2_run ::
  "nat \<Rightarrow> nat \<Rightarrow> int \<Rightarrow> (nat \<times> nat) list
     \<Rightarrow> error + field \<times> ((int \<times> int) \<times> (int \<times> int)) option list" where
  "SingularTemperature2_run L N S landing_pos =
     (case centroid N landing_pos of Inl e \<Rightarrow> Inl e | Inr (y, x) \<Rightarrow>
      case set_cell (replicate L (replicate L 0)) y x (min 1000 (10 * S)) of Inl e \<Rightarrow> Inl e
      | Inr t1 \<Rightarrow>
      case set_cell t1 ((y + 1) mod L) x (min 1000 (10 * S)) of Inl e \<Rightarrow> Inl e
      | Inr temperature \<Rightarrow>
        if length landing_pos > N then Inl IndexError
        else Inr (temperature,
               map (\<lambda>(py, px). Some ((int y - int py, int x - int px),
                                       (int ((y + 1) mod L) - int py, int x - int px)))
                   landing_pos
               @ replicate (N - length landing_pos) None))"

text \<open>
  The branch \<open>self.N <= 71\<close> of \<open>_predict\<close>: one entry of the score matrix. The
  augmented assignment reads the entry, then measures twice, then writes. Unpacking an
  empty slot of \<open>distance\<close> raises ValueError.
\<close>

definition singular2_entry ::
  "nat \<Rightarrow> nat \<times> ((int \<times> int) \<times> (int \<times> int)) option \<Rightarrow> rat list list \<times> channel
     \<Rightarrow> error + rat list list \<times> channel" where
  "singular2_entry i_in e st =
     (case st of (cost_matrix, ch) \<Rightarrow>
      case e of (i_out, None) \<Rightarrow> Inl ValueError
      | (i_out, Some ((dy, dx), (dy2, dx2))) \<Rightarrow>
      case cell cost_matrix i_in i_out of Inl e \<Rightarrow> Inl e | Inr old \<Rightarrow>
      case measure i_in dy dx ch of Inl e \<Rightarrow> Inl e | Inr (v1, ch1) \<Rightarrow>
      case measure i_in dy2 dx2 ch1 of Inl e \<Rightarrow> Inl e | Inr (v2, ch2) \<Rightarrow>
      case set_cell cost_matrix i_in i_out (old + of_int (v1 + v2)) of Inl e \<Rightarrow> Inl e
      | Inr cm \<Rightarrow> Inr (cm, ch2))"

definition singular2_matrix ::
  "nat \<Rightarrow> ((int \<times> int) \<times> (int \<times> int)) option list \<Rightarrow> channel
     \<Rightarrow> error + rat list list \<times> channel" where
  "singular2_matrix N distance ch =
     foldE (\<lambda>i_in. foldE (singular2_entry i_in) (enumerate 0 distance)) [0..<N - 1]
       (replicate N (replicate N 0), ch)"

text \<open>
  The branch \<open>self.N > 71\<close>: the inner loop for one hidden index, over
  \<open>enumerate(distance)\<close>. The threshold \<open>5.3 * self.S\<close> is the rational \<open>53 S / 10\<close>.
\<close>

fun singular2_round ::
  "nat \<Rightarrow> rat \<Rightarrow> (nat \<times> ((int \<times> int) \<times> (int \<times> int)) option) list \<Rightarrow> nat list \<Rightarrow> channel
     \<Rightarrow> error + nat option \<times> channel" where
  "singular2_round i_in threshold [] visited_index ch = Inr (None, ch)"
| "singular2_round i_in threshold ((i_out, None) # rest) visited_index ch = Inl ValueError"
| "singular2_round i_in threshold ((i_out, Some ((dy, dx), (dy2, dx2))) # rest) visited_index ch =
     (if i_out \<in> set visited_index then singular2_round i_in threshold rest visited_index ch
      else case measure i_in dy dx ch of Inl e \<Rightarrow> Inl e | Inr (v1, ch1) \<Rightarrow>
           case measure i_in dy2 dx2 ch1 of Inl e \<Rightarrow> Inl e | Inr (v2, ch2) \<Rightarrow>
             if of_int (v1 + v2) > threshold then Inr (Some i_out, ch2)
             else singular2_round i_in threshold rest visited_index ch2)"

definition singular2_step ::
  "rat \<Rightarrow> ((int \<times> int) \<times> (int \<times> int)) option list \<Rightarrow> nat
     \<Rightarrow> (nat list \<times> nat list) \<times> channel \<Rightarrow> error + (nat list \<times> nat list) \<times> channel" where
  "singular2_step threshold distance i_in st =
     (case st of ((estimate, visited_index), ch) \<Rightarrow>
      case singular2_round i_in threshold (enumerate 0 distance) visited_index ch of
        Inl e \<Rightarrow> Inl e
      | Inr (None, ch1) \<Rightarrow> Inr ((estimate, visited_index), ch1)
      | Inr (Some i_out, ch1) \<Rightarrow>
          Inr ((estimate[i_in := i_out], visited_index @ [i_out]), ch1))"

definition singular2_threshold ::
  "nat \<Rightarrow> int \<Rightarrow> ((int \<times> int) \<times> (int \<times> int)) option list \<Rightarrow> channel
     \<Rightarrow> error + nat list \<times> channel" where
  "singular2_threshold N S distance ch =
     (let threshold = 53 / 10 * of_int S in
      case foldE (singular2_step threshold distance) [0..<N - 1] ((replicate N 0, []), ch)
      of Inl e \<Rightarrow> Inl e
      | Inr ((estimate, visited_index), ch1) \<Rightarrow>
          (case force_last N estimate visited_index of Inl e \<Rightarrow> Inl e
           | Inr est \<Rightarrow> Inr (est, ch1)))"

definition SingularSolver2_predict ::
  "solver \<Rightarrow> nat \<Rightarrow> int \<Rightarrow> ((int \<times> int) \<times> (int \<times> int)) option list \<Rightarrow> channel
     \<Rightarrow> error + nat list \<times> channel" where
  "SingularSolver2_predict lsa N S distance ch =
     (if N \<le> 71
      then case singular2_matrix N distance ch of Inl e \<Rightarrow> Inl e
           | Inr (cost_matrix, ch1) \<Rightarrow> Inr (lsa True cost_matrix, ch1)
      else singular2_threshold N S distance ch)"

section \<open>Variant D decoder (AroundSolver) and the strategy selector (main)\<close>

text \<open>\<open>self.Around\<close> and \<open>self.direction\<close>, as both \<open>__init__\<close> methods set them.\<close>

definition Around :: "int \<Rightarrow> nat \<Rightarrow> nat" where
  "Around S N = (if S < 625 then (if S \<ge> 289 \<and> N = 100 then 5 else 3) else 5)"

definition square :: "int \<Rightarrow> (int \<times> int) list" where
  "square r = concat (map (\<lambda>y. map (\<lambda>x. (y, x)) [- r..r]) [- r..r])"

definition direction :: "int \<Rightarrow> nat \<Rightarrow> (int \<times> int) list" where
  "direction S N = (if S < 625 then (if S \<ge> 289 \<and> N = 100 then square 2 else square 1) else square 2)"

text \<open>\<open>10000 // self.N // self.Around**2\<close>.\<close>

definition measure_count :: "int \<Rightarrow> nat \<Rightarrow> error + nat" where
  "measure_count S N =
     (if N = 0 then Inl ZeroDivisionError else Inr (10000 div N div (Around S N)\<^sup>2))"

text \<open>One averaged reading: \<open>sum([... for _ in range(measure_count)]) / measure_count\<close>.\<close>

definition averaged ::
  "nat \<Rightarrow> nat \<Rightarrow> int \<times> int \<Rightarrow> rat list \<times> channel \<Rightarrow> error + rat list \<times> channel" where
  "averaged count i_in d st =
     (case st of (measure_vector, ch) \<Rightarrow>
      case measures i_in (fst d) (snd d) count ch of Inl e \<Rightarrow> Inl e
      | Inr (vs, ch1) \<Rightarrow>
          if count = 0 then Inl ZeroDivisionError
          else Inr (measure_vector @ [of_int (sum_list vs) / of_nat count], ch1))"

text \<open>
  The cost of one candidate: the sum over \<open>range(len(measure_vector))\<close> of the squared
  differences with \<open>vector[i_out]\<close>, both read by index.
\<close>

definition around_cost :: "rat list list \<Rightarrow> rat list \<Rightarrow> nat \<Rightarrow> error + rat" where
  "around_cost vector measure_vector i_out =
     foldE (\<lambda>i cost. case cell vector i_out i of Inl e \<Rightarrow> Inl e
                       | Inr v \<Rightarrow> Inr (cost + (v - measure_vector ! i)\<^sup>2))
           [0..<length measure_vector] 0"

definition around_row ::
  "int \<Rightarrow> nat \<Rightarrow> nat \<Rightarrow> rat list list \<Rightarrow> (nat \<times> nat) list \<Rightarrow> nat
     \<Rightarrow> rat list list \<times> channel \<Rightarrow> error + rat list list \<times> channel" where
  "around_row S N count vector landing_pos i_in st =
     (case st of (cost_matrix, ch) \<Rightarrow>
      case foldE (averaged count i_in) (direction S N) ([], ch) of Inl e \<Rightarrow> Inl e
      | Inr (measure_vector, ch1) \<Rightarrow>
      case foldE (\<lambda>(i_out, pos) cm.
                    case around_cost vector measure_vector i_out of Inl e \<Rightarrow> Inl e
                    | Inr cost \<Rightarrow> set_cell cm i_in i_out cost)
                 (enumerate 0 landing_pos) cost_matrix
      of Inl e \<Rightarrow> Inl e | Inr cm \<Rightarrow> Inr (cm, ch1))"

definition around_matrix ::
  "int \<Rightarrow> nat \<Rightarrow> rat list list \<Rightarrow> (nat \<times> nat) list \<Rightarrow> channel
     \<Rightarrow> error + rat list list \<times> channel" where
  "around_matrix S N vector landing_pos ch =
     (case measure_count S N of Inl e \<Rightarrow> Inl e | Inr count \<Rightarrow>
        foldE (around_row S N count vector landing_pos) [0..<N] (replicate N (replicate N 0), ch))"

definition AroundSolver_predict ::
  "solver \<Rightarrow> int \<Rightarrow> nat \<Rightarrow> rat list list \<Rightarrow> (nat \<times> nat) list \<Rightarrow> channel
     \<Rightarrow> error + nat list \<times> channel" where
  "AroundSolver_predict lsa S N vector landing_pos ch =
     (case around_matrix S N vector landing_pos ch of Inl e \<Rightarrow> Inl e
      | Inr (cost_matrix, ch1) \<Rightarrow> Inr (lsa False cost_matrix, ch1))"

text \<open>The \<open>if\<close>/\<open>elif\<close> chain of \<open>main\<close>.\<close>

datatype variant = OnePointSolver | SingularSolver | SingularSolver2 | AroundSolver

definition select_solver :: "int \<Rightarrow> nat \<Rightarrow> variant" where
  "select_solver S N =
     (if S = 1 then OnePointSolver
      else if 1 < S \<and> S < 169 then SingularSolver
      else if 169 \<le> S \<and> S < 289 then SingularSolver2
      else if 289 \<le> S \<and> S < 400 \<and> N \<le> 71 then SingularSolver2
      else AroundSolver)"

text \<open>
  A level used in the examples: one perturbation (\<open>randint(1, 20)\<close> returns 1) of the
  first eligible cell, the offset draw 6 (with \<open>rand = 5\<close> the offset \<open>+1\<close>), and a
  Metropolis test that succeeds.
\<close>

definition uphill_level :: level where
  "uphill_level = \<lparr>count_draw = 0, cell_draws = (\<lambda>_. 0), offset_draws = (\<lambda>_. 6), accept = True\<rparr>"

section \<open>Properties of the cost\<close>

lemma wf_field_nth: "wf_field L t \<Longrightarrow> i < L \<Longrightarrow> length (t ! i) = L"
  by (simp add: wf_field_def list_all_length)

lemma cell_wf: "wf_field L t \<Longrightarrow> i < L \<Longrightarrow> j < L \<Longrightarrow> cell t i j = Inr (t ! i ! j)"
  by (simp add: cell_def wf_field_def list_all_length)

lemma cost_cell_wf:
  assumes "wf_field L t" "i < L" "j < L"
  shows "cost_cell L t i j c = Inr (c + cell_term L t i j)"
proof -
  have L: "0 < L" using assms(2) by simp
  have i': "(i + 1) mod L < L" and j': "(j + 1) mod L < L"
    using L by simp_all
  have "cell t ((i + 1) mod L) j = Inr (t ! ((i + 1) mod L) ! j)"
    by (rule cell_wf [OF assms(1) i' assms(3)])
  moreover have "cell t i ((j + 1) mod L) = Inr (t ! i ! ((j + 1) mod L))"
    by (rule cell_wf [OF assms(1) assms(2) j'])
  ultimately show ?thesis
    using cell_wf [OF assms] by (simp add: cost_cell_def cell_term_def)
qed

lemma foldE_sum:
  assumes "\<And>x c. x \<in> set xs \<Longrightarrow> f x c = Inr (c + g x)"
  shows "foldE f xs c = Inr (c + sum_list (map g xs))"
  using assms by (induction xs arbitrary: c) (simp_all add: add.assoc)

lemma cost_row_wf:
  assumes "wf_field L t" "i < L"
  shows "foldE (\<lambda>j. cost_cell L t i j) [0..<L] c = Inr (c + (\<Sum>j<L. cell_term L t i j))"
proof -
  have "foldE (\<lambda>j. cost_cell L t i j) [0..<L] c
        = Inr (c + sum_list (map (cell_term L t i) [0..<L]))"
    by (rule foldE_sum) (simp add: cost_cell_wf [OF assms])
  then show ?thesis
    by (simp add: interv_sum_list_conv_sum_set_nat atLeast0LessThan)
qed

lemma calc_placement_cost_wf:
  assumes "wf_field L t"
  shows "calc_placement_cost L t = Inr (\<Sum>i<L. \<Sum>j<L. cell_term L t i j)"
proof -
  have "foldE (\<lambda>i. foldE (\<lambda>j. cost_cell L t i j) [0..<L]) [0..<L] 0
        = Inr (0 + sum_list (map (\<lambda>i. \<Sum>j<L. cell_term L t i j) [0..<L]))"
    by (rule foldE_sum) (simp add: cost_row_wf [OF assms])
  then show ?thesis
    by (simp add: calc_placement_cost_def interv_sum_list_conv_sum_set_nat atLeast0LessThan)
qed

lemma cell_term_nonneg: "0 \<le> cell_term L t i j"
  by (simp add: cell_term_def)

lemma cost_sum_nonneg: "0 \<le> (\<Sum>i<L. \<Sum>j<(L::nat). cell_term L t i j)"
  by (intro sum_nonneg cell_term_nonneg)

lemma cost_sum_zero_iff:
  "(\<Sum>i<L. \<Sum>j<(L::nat). cell_term L t i j) = 0 \<longleftrightarrow> (\<forall>i<L. \<forall>j<L. cell_term L t i j = 0)"
proof -
  have "(\<Sum>i<L. \<Sum>j<L. cell_term L t i j) = 0 \<longleftrightarrow> (\<forall>i<L. (\<Sum>j<L. cell_term L t i j) = 0)"
    by (subst sum_nonneg_eq_0_iff) (auto intro: sum_nonneg cell_term_nonneg)
  also have "\<dots> \<longleftrightarrow> (\<forall>i<L. \<forall>j<L. cell_term L t i j = 0)"
    by (subst sum_nonneg_eq_0_iff) (auto intro: cell_term_nonneg)
  finally show ?thesis .
qed

lemma cell_term_zero_iff:
  "cell_term L t i j = 0 \<longleftrightarrow>
     t ! i ! j = t ! ((i + 1) mod L) ! j \<and> t ! i ! j = t ! i ! ((j + 1) mod L)"
proof -
  have "(a::int)\<^sup>2 + b\<^sup>2 = 0 \<longleftrightarrow> a = 0 \<and> b = 0" for a b
    by (rule sum_power2_eq_zero_iff)
  then show ?thesis by (simp add: cell_term_def)
qed

lemma constant_field_iff:
  assumes "wf_field L t"
  shows "constant_field t \<longleftrightarrow> (\<forall>i<L. \<forall>j<L. t ! i ! j = t ! 0 ! 0)"
  using assms by (auto simp: constant_field_def wf_field_def list_all_length)

lemma all_terms_zero_iff_constant:
  "(\<forall>i<L. \<forall>j<L. cell_term L t i j = 0) \<longleftrightarrow> (\<forall>i<L. \<forall>j<L. t ! i ! j = t ! 0 ! 0)"
proof
  assume z: "\<forall>i<L. \<forall>j<L. cell_term L t i j = 0"
  have down: "t ! i ! j = t ! 0 ! j" if "i < L" "j < L" for i j
    using that
  proof (induction i)
    case 0
    show ?case by (rule refl)
  next
    case (Suc i)
    have i: "i < L" using Suc.prems(1) by simp
    have m: "(i + 1) mod L = Suc i" using Suc.prems(1) by simp
    have "cell_term L t i j = 0" using z i Suc.prems(2) by blast
    then have "t ! i ! j = t ! ((i + 1) mod L) ! j"
      unfolding cell_term_zero_iff by (rule conjunct1)
    then have "t ! Suc i ! j = t ! i ! j" unfolding m by (rule sym)
    also have "\<dots> = t ! 0 ! j" by (rule Suc.IH [OF i Suc.prems(2)])
    finally show ?case .
  qed
  have right: "t ! 0 ! j = t ! 0 ! 0" if "j < L" for j
    using that
  proof (induction j)
    case 0
    show ?case by (rule refl)
  next
    case (Suc j)
    have j: "j < L" using Suc.prems by simp
    have m: "(j + 1) mod L = Suc j" using Suc.prems by simp
    have "0 < L" using j by simp
    then have "cell_term L t 0 j = 0" using z j by blast
    then have "t ! 0 ! j = t ! 0 ! ((j + 1) mod L)"
      unfolding cell_term_zero_iff by (rule conjunct2)
    then have "t ! 0 ! Suc j = t ! 0 ! j" unfolding m by (rule sym)
    also have "\<dots> = t ! 0 ! 0" by (rule Suc.IH [OF j])
    finally show ?case .
  qed
  show "\<forall>i<L. \<forall>j<L. t ! i ! j = t ! 0 ! 0"
  proof (intro allI impI)
    fix i j
    assume ij: "i < L" "j < L"
    have "t ! i ! j = t ! 0 ! j" by (rule down [OF ij])
    also have "\<dots> = t ! 0 ! 0" by (rule right [OF ij(2)])
    finally show "t ! i ! j = t ! 0 ! 0" .
  qed
next
  assume c: "\<forall>i<L. \<forall>j<L. t ! i ! j = t ! 0 ! 0"
  show "\<forall>i<L. \<forall>j<L. cell_term L t i j = 0"
  proof (intro allI impI)
    fix i j
    assume ij: "i < L" "j < L"
    have i': "(i + 1) mod L < L" and j': "(j + 1) mod L < L"
      using ij by simp_all
    have a: "t ! i ! j = t ! 0 ! 0" using c ij by blast
    have d: "t ! ((i + 1) mod L) ! j = t ! 0 ! 0" using c i' ij(2) by blast
    have r: "t ! i ! ((j + 1) mod L) = t ! 0 ! 0" using c ij(1) j' by blast
    show "cell_term L t i j = 0"
      unfolding cell_term_zero_iff a d r by simp
  qed
qed

text \<open>
  C5. For every \<open>L \<times> L\<close> field the smoothness cost is computed without an error and
  equals the sum, over all cells, of the squared difference with the toroidal
  down-neighbour plus the squared difference with the toroidal right-neighbour; it is
  non-negative, and it is zero exactly when the field is constant.
\<close>

theorem calc_placement_cost_spec:
  assumes "wf_field L t"
  shows "calc_placement_cost L t = Inr (\<Sum>i<L. \<Sum>j<L. cell_term L t i j)
         \<and> 0 \<le> (\<Sum>i<L. \<Sum>j<L. cell_term L t i j)
         \<and> (calc_placement_cost L t = Inr 0 \<longleftrightarrow> constant_field t)"
proof -
  have v: "calc_placement_cost L t = Inr (\<Sum>i<L. \<Sum>j<L. cell_term L t i j)"
    by (rule calc_placement_cost_wf [OF assms])
  have "(calc_placement_cost L t = Inr 0) \<longleftrightarrow> (\<Sum>i<L. \<Sum>j<L. cell_term L t i j) = 0"
    by (simp add: v)
  also have "\<dots> \<longleftrightarrow> constant_field t"
    by (simp add: cost_sum_zero_iff all_terms_zero_iff_constant constant_field_iff [OF assms])
  finally show ?thesis
    using v cost_sum_nonneg by simp
qed

theorem calc_placement_cost_spec_witness:
  "wf_field 2 [[1, 3], [3, 1]]
   \<and> calc_placement_cost 2 [[1, 3], [3, 1]] = Inr 32
   \<and> \<not> constant_field [[1, 3], [3, 1]]"
proof -
  have w: "wf_field 2 [[1, 3], [3, 1]]" by (simp add: wf_field_def)
  have s: "(\<Sum>i<(2::nat). \<Sum>j<(2::nat). cell_term 2 [[1, 3], [3, 1]] i j) = 32"
    by (simp add: cell_term_def lessThan_Suc numeral_2_eq_2)
  show ?thesis
    using calc_placement_cost_spec [OF w] w s by (simp add: constant_field_def)
qed

section \<open>Properties of the optimizer\<close>

lemma foldE_invariant:
  assumes "foldE f xs s = Inr s'" "P s"
    and "\<And>x a b. x \<in> set xs \<Longrightarrow> P a \<Longrightarrow> f x a = Inr b \<Longrightarrow> P b"
  shows "P s'"
  using assms
proof (induction xs arbitrary: s)
  case Nil
  then show ?case by simp
next
  case (Cons x xs)
  from Cons.prems(1) obtain a where a: "f x s = Inr a" and r: "foldE f xs a = Inr s'"
    by (auto split: sum.splits)
  have pa: "P a" using Cons.prems(3) [of x s a] Cons.prems(2) a by simp
  show ?case
  proof (rule Cons.IH [OF r pa])
    fix y b c
    assume "y \<in> set xs" "P b" "f y b = Inr c"
    then show "P c" using Cons.prems(3) [of y b c] by simp
  qed
qed

lemma set_permit_pos:
  "set (permit_pos L prohibit_pos) = {(i, j). i < L \<and> j < L \<and> (i, j) \<notin> set prohibit_pos}"
  by (auto simp: permit_pos_def split: if_splits)

lemma choice_in_set: "xs \<noteq> [] \<Longrightarrow> choice xs r \<in> set xs"
  by (simp add: choice_def)

lemma randint_Inr:
  assumes "randint a b r = Inr d"
  shows "a \<le> b \<and> a \<le> d \<and> d \<le> b"
proof -
  from assms have ab: "a \<le> b" and d: "d = a + int (r mod nat (b - a + 1))"
    by (auto simp: randint_def split: if_splits)
  have "0 < nat (b - a + 1)" using ab by simp
  then have "r mod nat (b - a + 1) < nat (b - a + 1)" by (rule mod_less_divisor)
  then have "int (r mod nat (b - a + 1)) < b - a + 1" using ab by linarith
  with ab d show ?thesis by simp
qed

lemma perturb_Inr:
  assumes "perturb rand permit lv k t = Inr t'"
    and c: "choice permit (cell_draws lv k) = (i, j)"
  shows "i < length t \<and> j < length (t ! i) \<and> 0 \<le> rand
         \<and> (\<exists>d. - rand \<le> d \<and> d \<le> rand \<and> t' = clamp_write t i j d)"
proof -
  from assms have v: "cell t i j = Inr (t ! i ! j)" and r: "i < length t" "j < length (t ! i)"
    by (auto simp: perturb_def cell_def split: sum.splits if_splits)
  from assms v obtain d where d: "randint (- rand) rand (offset_draws lv k) = Inr d"
    by (auto simp: perturb_def split: sum.splits)
  have rd: "- rand \<le> rand \<and> - rand \<le> d \<and> d \<le> rand"
    by (rule randint_Inr [OF d])
  have "t' = clamp_write t i j d"
    using assms(1) r d by (simp add: c perturb_def cell_def set_cell_def clamp_write_def)
  with r rd show ?thesis by auto
qed

lemma perturb_invariant:
  assumes "perturb rand permit lv k a = Inr b" "permit \<noteq> []" "P a"
    and step: "\<And>a i j d. P a \<Longrightarrow> (i, j) \<in> set permit \<Longrightarrow> i < length a \<Longrightarrow> j < length (a ! i)
                 \<Longrightarrow> P (clamp_write a i j d)"
  shows "P b"
proof -
  obtain i j where c: "choice permit (cell_draws lv k) = (i, j)"
    by (cases "choice permit (cell_draws lv k)")
  have m: "(i, j) \<in> set permit"
    using choice_in_set [OF assms(2), of "cell_draws lv k"] c by simp
  from perturb_Inr [OF assms(1) c] obtain d
    where "i < length a" "j < length (a ! i)" "b = clamp_write a i j d" by blast
  then show ?thesis using step [OF assms(3) m] by simp
qed

lemma propose_invariant:
  assumes "propose rand permit lv a = Inr b" "permit \<noteq> []" "P a"
    and step: "\<And>a i j d. P a \<Longrightarrow> (i, j) \<in> set permit \<Longrightarrow> i < length a \<Longrightarrow> j < length (a ! i)
                 \<Longrightarrow> P (clamp_write a i j d)"
  shows "P b"
proof -
  from assms(1) obtain n where f: "foldE (perturb rand permit lv) [0..<nat n] a = Inr b"
    by (auto simp: propose_def split: sum.splits)
  show ?thesis
  proof (rule foldE_invariant [OF f, where P = P])
    show "P a" by (rule assms(3))
  next
    fix x a' b'
    assume "P a'" "perturb rand permit lv x a' = Inr b'"
    then show "P b'" using perturb_invariant [of rand permit lv x a' b' P] assms(2) step by blast
  qed
qed

lemma anneal_level_invariant:
  assumes "anneal_level L rand permit lv (a, ca) = Inr (b, cb)" "permit \<noteq> []" "P a"
    and step: "\<And>a i j d. P a \<Longrightarrow> (i, j) \<in> set permit \<Longrightarrow> i < length a \<Longrightarrow> j < length (a ! i)
                 \<Longrightarrow> P (clamp_write a i j d)"
  shows "P b"
proof -
  from assms(1) obtain n where "propose rand permit lv a = Inr n" "b = n \<or> b = a"
    by (auto simp: anneal_level_def Let_def split: sum.splits if_splits)
  then show ?thesis
    using propose_invariant [of rand permit lv a n P] assms(2,3) step by blast
qed

lemma optimize_invariant:
  assumes "optimize L t prohibit_pos rand script = Inr t'" "P t"
    and step: "\<And>a i j d. P a \<Longrightarrow> (i, j) \<in> set (permit_pos L prohibit_pos) \<Longrightarrow> i < length a
                 \<Longrightarrow> j < length (a ! i) \<Longrightarrow> P (clamp_write a i j d)"
  shows "P t'"
proof (cases "permit_pos L prohibit_pos = []")
  case True
  with assms(1) have "t' = t" by (auto simp: optimize_def split: sum.splits)
  then show ?thesis using assms(2) by simp
next
  case False
  from assms(1) False obtain c c' where
    f: "foldE (\<lambda>run. foldE (anneal_level L rand (permit_pos L prohibit_pos)) run) script (t, c)
        = Inr (t', c')"
    by (auto simp: optimize_def Let_def split: sum.splits prod.splits)
  have lv: "P (fst y)"
    if "foldE (anneal_level L rand (permit_pos L prohibit_pos)) run x = Inr y" "P (fst x)"
    for run x y
  proof (rule foldE_invariant [OF that(1), where P = "\<lambda>s. P (fst s)"])
    show "P (fst x)" by (rule that(2))
  next
    fix l a b
    assume "P (fst a)" "anneal_level L rand (permit_pos L prohibit_pos) l a = Inr b"
    then show "P (fst b)"
      using anneal_level_invariant [of L rand "permit_pos L prohibit_pos" l "fst a" "snd a" "fst b" "snd b" P]
        False step by simp
  qed
  have "P (fst (t', c'))"
  proof (rule foldE_invariant [OF f, where P = "\<lambda>s. P (fst s)"])
    show "P (fst (t, c))" using assms(2) by simp
  next
    fix run a b
    assume "P (fst a)" "foldE (anneal_level L rand (permit_pos L prohibit_pos)) run a = Inr b"
    then show "P (fst b)" using lv by blast
  qed
  then show ?thesis by simp
qed

lemma clamp_write_other:
  assumes "(i', j') \<noteq> (i, j)" "i' < length a"
  shows "clamp_write a i' j' d ! i ! j = a ! i ! j"
proof (cases "i' = i")
  case True
  with assms have "j' \<noteq> j" by simp
  with True assms(2) show ?thesis by (simp add: clamp_write_def)
next
  case False
  then show ?thesis by (simp add: clamp_write_def)
qed

text \<open>
  C7. Whatever the initial field, the prohibited cells and the run of the optimizer, a
  cell of the prohibited list has the same value in the returned field as in the initial
  field, and the cell picked by the mutation step is never a prohibited one.
\<close>

theorem optimize_keeps_prohibited:
  assumes "optimize L t prohibit_pos rand script = Inr t'" "(i, j) \<in> set prohibit_pos"
  shows "t' ! i ! j = t ! i ! j
         \<and> (permit_pos L prohibit_pos \<noteq> [] \<longrightarrow>
              choice (permit_pos L prohibit_pos) r \<notin> set prohibit_pos)"
proof
  show "t' ! i ! j = t ! i ! j"
  proof (rule optimize_invariant [OF assms(1), where P = "\<lambda>a. a ! i ! j = t ! i ! j"])
    show "t ! i ! j = t ! i ! j" by (rule refl)
  next
    fix a i' j' d
    assume a: "a ! i ! j = t ! i ! j" and m: "(i', j') \<in> set (permit_pos L prohibit_pos)"
      and r: "i' < length a"
    from m assms(2) have "(i', j') \<noteq> (i, j)" by (auto simp: set_permit_pos)
    then show "clamp_write a i' j' d ! i ! j = t ! i ! j"
      using clamp_write_other [OF _ r] a by simp
  qed
next
  show "permit_pos L prohibit_pos \<noteq> [] \<longrightarrow>
          choice (permit_pos L prohibit_pos) r \<notin> set prohibit_pos"
  proof
    assume "permit_pos L prohibit_pos \<noteq> []"
    then have "choice (permit_pos L prohibit_pos) r \<in> set (permit_pos L prohibit_pos)"
      by (rule choice_in_set)
    then show "choice (permit_pos L prohibit_pos) r \<notin> set prohibit_pos"
      by (auto simp: set_permit_pos)
  qed
qed

theorem optimize_keeps_prohibited_witness:
  "optimize 2 [[7, 0], [0, 0]] [(0, 0)] 5 [[uphill_level]] = Inr [[7, 1], [0, 0]]
   \<and> [[7, 1], [0, 0]] ! 0 ! 0 = [[7, 0], [0, 0 :: int]] ! 0 ! 0
   \<and> choice (permit_pos 2 [(0, 0)]) 0 \<notin> set [(0, 0)]"
proof -
  have e: "optimize 2 [[7, 0], [0, 0]] [(0, 0)] 5 [[uphill_level]] = Inr [[7, 1], [0, 0]]"
    by code_simp
  have m: "(0, 0) \<in> set [(0, 0 :: nat)]" by simp
  have p: "permit_pos 2 [(0, 0)] \<noteq> []" by code_simp
  show ?thesis
    using optimize_keeps_prohibited [OF e m, of 0] e p by simp
qed

text \<open>
  C8. When every cell of the \<open>L \<times> L\<close> grid is prohibited, \<open>optimize\<close> returns the
  input field itself, whatever the clock and the random source would have produced, and
  raises nothing.
\<close>

theorem optimize_empty_permit:
  assumes "wf_field L t" "\<forall>i<L. \<forall>j<L. (i, j) \<in> set prohibit_pos"
  shows "permit_pos L prohibit_pos = [] \<and> optimize L t prohibit_pos rand script = Inr t"
proof -
  have "set (permit_pos L prohibit_pos) = {}"
    using assms(2) by (auto simp: set_permit_pos)
  then have e: "permit_pos L prohibit_pos = []" by simp
  then show ?thesis
    by (simp add: optimize_def calc_placement_cost_wf [OF assms(1)])
qed

theorem optimize_empty_permit_witness:
  "wf_field 2 [[3, 1], [4, 1]]
   \<and> permit_pos 2 [(0, 0), (0, 1), (1, 0), (1, 1)] = []
   \<and> optimize 2 [[3, 1], [4, 1]] [(0, 0), (0, 1), (1, 0), (1, 1)] 5 [[uphill_level]]
       = Inr [[3, 1], [4, 1]]"
proof -
  have w: "wf_field 2 [[3, 1], [4, 1]]" by (simp add: wf_field_def)
  have a: "\<forall>i<(2::nat). \<forall>j<(2::nat). (i, j) \<in> set [(0, 0), (0, 1), (1, 0), (1, 1)]"
    by (simp add: less_Suc_eq numeral_2_eq_2)
  show ?thesis
    using optimize_empty_permit [OF w a, of 5 "[[uphill_level]]"] w a by simp
qed

text \<open>
  C1, at a failing input. On the all-zero \<open>2 \<times> 2\<close> field (cost 0) with no prohibited
  cell, one level whose proposal raises one cell to 1 and whose Metropolis test succeeds
  replaces \<open>best_temperature\<close> by the proposal: the returned field has cost 4.
\<close>

theorem optimize_returns_worse_field:
  "calc_placement_cost 2 [[0, 0], [0, 0]] = Inr 0
   \<and> optimize 2 [[0, 0], [0, 0]] [] 5 [[uphill_level]] = Inr [[1, 0], [0, 0]]
   \<and> calc_placement_cost 2 [[1, 0], [0, 0]] = Inr 4"
  by code_simp

end
